theory Spec2Isabelle
  imports Complex_Main
begin

section \<open>Exports page (ExportsPage.js)\<close>

subsection \<open>formatFileSize\<close>

text \<open>
  \<^verbatim>\<open>
  const formatFileSize = (bytes) => {
    if (bytes === 0) return '0 Bytes';
    const k = 1024;
    const sizes = ['Bytes', 'KB', 'MB', 'GB'];
    const i = Math.floor(Math.log(bytes) / Math.log(k));
    return Math.round(bytes / Math.pow(k, i) * 100) / 100 + ' ' + sizes[i];
  };
  \<close>
  The argument is the \<open>file_size\<close> of an export, a byte count: a natural number.
  JavaScript computes on doubles; the model computes the same formulas exactly.
\<close>

definition k :: nat where
  "k = 1024"

definition sizes :: "string list" where
  "sizes = [''Bytes'', ''KB'', ''MB'', ''GB'']"

text \<open>
  \<open>Math.floor(Math.log(bytes) / Math.log(k))\<close> for \<open>bytes \<ge> 1\<close>: the number of times
  \<open>bytes\<close> can be divided by \<open>k\<close> before it drops below \<open>k\<close>. Lemma
  \<open>unitIndex_floor_log\<close> below shows that this is the floor of the quotient of logarithms.
\<close>

function unitIndex :: "nat \<Rightarrow> nat" where
  "unitIndex bytes = (if bytes < k then 0 else Suc (unitIndex (bytes div k)))"
  by pat_completeness auto
termination
  by (relation "measure (\<lambda>b. b)") (auto simp: k_def)

declare unitIndex.simps [simp del]

text \<open>
  \<open>Math.round(bytes / Math.pow(k, i) * 100)\<close>: the quotient in hundredths, rounded to the
  nearest integer, a half rounded up.
\<close>

definition roundedHundredths :: "nat \<Rightarrow> nat \<Rightarrow> nat" where
  "roundedHundredths bytes i = (2 * (bytes * 100) + k ^ i) div (2 * k ^ i)"

definition digit :: "nat \<Rightarrow> char" where
  "digit d = ''0123456789'' ! d"

function showNat :: "nat \<Rightarrow> string" where
  "showNat n = (if n < 10 then [digit n] else showNat (n div 10) @ [digit (n mod 10)])"
  by pat_completeness auto
termination
  by (relation "measure (\<lambda>n. n)") auto

declare showNat.simps [simp del]

text \<open>
  The string JavaScript prints for the number \<open>h / 100\<close>: the integer part, and the
  hundredths without trailing zeros.
\<close>

definition numberToString :: "nat \<Rightarrow> string" where
  "numberToString h =
     showNat (h div 100) @
     (if h mod 100 = 0 then ''''
      else if h mod 10 = 0 then [CHR ''.'', digit (h mod 100 div 10)]
      else [CHR ''.'', digit (h mod 100 div 10), digit (h mod 10)])"

text \<open>\<open>sizes[i]\<close> in a string concatenation: an index past the end reads \<open>undefined\<close>.\<close>

definition unitName :: "nat \<Rightarrow> string" where
  "unitName i = (if i < length sizes then sizes ! i else ''undefined'')"

definition formatFileSize :: "nat \<Rightarrow> string" where
  "formatFileSize bytes =
     (if bytes = 0 then ''0 Bytes''
      else let i = unitIndex bytes
           in numberToString (roundedHundredths bytes i) @ '' '' @ unitName i)"

subsection \<open>isExpired and the rendering of one export\<close>

text \<open>
  \<^verbatim>\<open>
  const isExpired = (expiresAt) => {
    return new Date(expiresAt) < new Date();
  };
  \<close>
  \<open>new Date(s)\<close> is a parameter \<open>parseDate\<close>: the time value in milliseconds, or
  \<open>None\<close> for an Invalid Date, whose time value is NaN and compares false with everything.
  \<open>new Date()\<close> is the current time \<open>now\<close>.
\<close>

type_synonym date_parser = "string \<Rightarrow> int option"

definition isExpired :: "date_parser \<Rightarrow> int \<Rightarrow> string \<Rightarrow> bool" where
  "isExpired parseDate now expiresAt =
     (case parseDate expiresAt of None \<Rightarrow> False | Some t \<Rightarrow> t < now)"

record export_item =
  item_id :: string
  file_name :: string
  file_size :: nat
  created_at :: string
  expires_at :: string
  download_token :: string

text \<open>
  What the page shows of one export: the size, the clock line (\<open>Expired\<close> or
  \<open>Valid for Nh\<close>) and the download area (the link or the \<open>Expired\<close> box).
\<close>

datatype clock_line = ExpiredText | ValidFor "int option"

datatype download_area = DownloadLink string | ExpiredBox

record item_view =
  view_name :: string
  view_size :: string
  view_clock :: clock_line
  view_download :: download_area

text \<open>
  \<open>Math.ceil((new Date(exportItem.expires_at) - new Date()) / (1000 * 60 * 60))\<close>;
  NaN for an Invalid Date. This \<open>new Date()\<close> is read after the one of \<open>isExpired\<close>,
  so it is a second time \<open>later\<close>.
\<close>

definition hoursLeft :: "date_parser \<Rightarrow> int \<Rightarrow> string \<Rightarrow> int option" where
  "hoursLeft parseDate later expiresAt =
     map_option (\<lambda>t. - ((later - t) div (1000 * 60 * 60))) (parseDate expiresAt)"

definition renderItem :: "string \<Rightarrow> date_parser \<Rightarrow> int \<Rightarrow> int \<Rightarrow> export_item \<Rightarrow> item_view" where
  "renderItem API parseDate now later exportItem =
     (let expired = isExpired parseDate now (expires_at exportItem) in
      \<lparr> view_name = file_name exportItem,
        view_size = formatFileSize (file_size exportItem),
        view_clock =
          (if expired then ExpiredText
           else ValidFor (hoursLeft parseDate later (expires_at exportItem))),
        view_download =
          (if \<not> expired
           then DownloadLink (API @ ''/export/download/'' @ download_token exportItem)
           else ExpiredBox) \<rparr>)"

datatype exports_view = LoadingExports | NoExportsYet | ExportList "item_view list"

definition renderExportsPage ::
  "string \<Rightarrow> date_parser \<Rightarrow> int \<Rightarrow> int \<Rightarrow> bool \<Rightarrow> export_item list \<Rightarrow> exports_view" where
  "renderExportsPage API parseDate now later loading exports =
     (if loading then LoadingExports
      else if length exports = 0 then NoExportsYet
      else ExportList (map (renderItem API parseDate now later) exports))"

section \<open>Connections page (ConnectionsPage.js)\<close>

subsection \<open>getSyncStatusBadge\<close>

text \<open>
  \<^verbatim>\<open>
  const getSyncStatusBadge = (status) => {
    switch (status) {
      case 'success': return (<span className="... bg-emerald-500/20 text-emerald-400 ...">
                                <CheckCircle className="w-3 h-3" /> Synced </span>);
      case 'syncing': return (<span className="... bg-blue-500/20 text-blue-400 ...">
                                <RefreshCw className="w-3 h-3 animate-spin" /> Syncing </span>);
      case 'error':   return (<span className="... bg-red-500/20 text-red-400 ...">
                                <XCircle className="w-3 h-3" /> Error </span>);
      default:        return (<span className="... bg-slate-500/20 text-slate-400 ...">
                                <Clock className="w-3 h-3" /> Pending </span>);
    }
  };
  \<close>
  A badge is the \<open>span\<close>: its colour classes, its icon with the icon's classes, and its
  label. \<open>switch\<close> compares with \<open>===\<close>, so only the three strings are told apart.
\<close>

datatype icon = CheckCircle | RefreshCw | XCircle | Clock

record badge =
  badge_colours :: string
  badge_icon :: icon
  icon_className :: string
  badge_label :: string

definition getSyncStatusBadge :: "string option \<Rightarrow> badge" where
  "getSyncStatusBadge status =
     (if status = Some ''success'' then
        \<lparr> badge_colours = ''bg-emerald-500/20 text-emerald-400'', badge_icon = CheckCircle,
          icon_className = ''w-3 h-3'', badge_label = ''Synced'' \<rparr>
      else if status = Some ''syncing'' then
        \<lparr> badge_colours = ''bg-blue-500/20 text-blue-400'', badge_icon = RefreshCw,
          icon_className = ''w-3 h-3 animate-spin'', badge_label = ''Syncing'' \<rparr>
      else if status = Some ''error'' then
        \<lparr> badge_colours = ''bg-red-500/20 text-red-400'', badge_icon = XCircle,
          icon_className = ''w-3 h-3'', badge_label = ''Error'' \<rparr>
      else
        \<lparr> badge_colours = ''bg-slate-500/20 text-slate-400'', badge_icon = Clock,
          icon_className = ''w-3 h-3'', badge_label = ''Pending'' \<rparr>)"

text \<open>
  Modelled from the spec: the type of the last-sync status is declared in the backend, which
  is not among the sources. Spec 3: "last-sync status {pending, syncing, success, error}".
  \<open>status_name\<close> is the string that names a status in the \<open>sync_status\<close> field of a
  connection.
\<close>

datatype sync_state = Pending | Syncing | Success | Error

fun status_name :: "sync_state \<Rightarrow> string" where
  "status_name Pending = ''pending''"
| "status_name Syncing = ''syncing''"
| "status_name Success = ''success''"
| "status_name Error = ''error''"

section \<open>The Record Store behind the API\<close>

text \<open>
  Modelled from the spec: the pages above read Records through \<open>GET /api/records\<close>; the
  Record Store that holds them is backend code that is not among the sources. A Record is the
  unified entity of spec 3: "dataset tag, provider, a provider-native external id, an opaque
  body payload, ingestion timestamp", owned by a user.
\<close>

record vault_record =
  rec_user :: nat
  rec_provider :: string
  rec_dataset :: string
  rec_external_id :: string
  rec_body :: string
  rec_ingested_at :: int

subsection \<open>Record Store: upsert\<close>

text \<open>
  Modelled from the spec: the dedup key of a Record, spec 3: "a provider-native external id
  (used as the dedup key together with provider+dataset+user)".
\<close>

type_synonym record_key = "nat \<times> string \<times> string \<times> string"

definition rec_key :: "vault_record \<Rightarrow> record_key" where
  "rec_key r = (rec_user r, rec_provider r, rec_dataset r, rec_external_id r)"

text \<open>
  Modelled from the spec: \<open>upsert(record)\<close> of the Record Store is backend code that is not
  among the sources. Spec 4.3: "for each Record, upsert keyed by (user, provider, dataset,
  external_id) -- insertion is idempotent, a re-ingest with identical id overwrites the body
  rather than duplicating". The store is the list of live Records.
\<close>

fun upsert :: "vault_record \<Rightarrow> vault_record list \<Rightarrow> vault_record list" where
  "upsert r [] = [r]"
| "upsert r (x # xs) =
     (if rec_key x = rec_key r then x\<lparr>rec_body := rec_body r\<rparr> # xs else x # upsert r xs)"

text \<open>
  Modelled from the spec: one batch of a sync run, spec 4.2 and 4.3. The connector's
  \<open>mapToUnified\<close> maps a raw item (an object of the provider's response, as its fields)
  to a Record; an unmappable item (\<open>None\<close>) is skipped, never fatal to the batch; every
  mapped Record is upserted, in the order of the batch.
\<close>

type_synonym raw_item = "(string \<times> string) list"

fun persist_batch ::
  "(raw_item \<Rightarrow> vault_record option) \<Rightarrow> raw_item list \<Rightarrow> vault_record list
     \<Rightarrow> vault_record list" where
  "persist_batch mapToUnified [] store = store"
| "persist_batch mapToUnified (raw # rest) store =
     (case mapToUnified raw of
        None \<Rightarrow> persist_batch mapToUnified rest store
      | Some r \<Rightarrow> persist_batch mapToUnified rest (upsert r store))"

text \<open>
  Modelled from the spec: the Record Stores that a sequence of upserts and sync batches can
  produce, from the empty store.
\<close>

inductive reachable :: "vault_record list \<Rightarrow> bool" where
  reachable_empty: "reachable []"
| reachable_upsert: "reachable store \<Longrightarrow> reachable (upsert r store)"
| reachable_sync: "reachable store \<Longrightarrow> reachable (persist_batch mapToUnified batch store)"

code_pred reachable .

section \<open>Sample data\<close>

text \<open>Concrete inputs on which the theorems below are instantiated.\<close>

definition sampleParse :: date_parser where
  "sampleParse s =
     (if s = ''2024-01-01T00:00:00Z'' then Some 1704067200000
      else if s = ''2024-01-03T00:00:00Z'' then Some 1704240000000
      else None)"

definition sampleExports :: "export_item list" where
  "sampleExports =
     [\<lparr> item_id = ''e1'', file_name = ''old.zip'', file_size = 1536,
        created_at = ''2023-12-31T00:00:00Z'', expires_at = ''2024-01-01T00:00:00Z'',
        download_token = ''tok1'' \<rparr>,
      \<lparr> item_id = ''e2'', file_name = ''new.zip'', file_size = 0,
        created_at = ''2024-01-02T00:00:00Z'', expires_at = ''2024-01-03T00:00:00Z'',
        download_token = ''tok2'' \<rparr>]"

text \<open>
  A connector's \<open>mapToUnified\<close> for tracks of user 7: an item needs an \<open>id\<close>; its
  \<open>title\<close> is the body.
\<close>

definition sampleMap :: "raw_item \<Rightarrow> vault_record option" where
  "sampleMap raw =
     (case map_of raw ''id'' of
        None \<Rightarrow> None
      | Some eid \<Rightarrow>
          Some \<lparr> rec_user = 7, rec_provider = ''spotify'', rec_dataset = ''tracks'',
                 rec_external_id = eid,
                 rec_body = (case map_of raw ''title'' of None \<Rightarrow> '''' | Some t \<Rightarrow> t),
                 rec_ingested_at = 0 \<rparr>)"

section \<open>Properties of the Exports page\<close>

lemma unitIndex_bounds:
  "1 \<le> b \<Longrightarrow> k ^ unitIndex b \<le> b \<and> b < k ^ Suc (unitIndex b)"
proof (induction b rule: unitIndex.induct)
  case (1 bytes)
  show ?case
  proof (cases "bytes < k")
    case True
    with 1 show ?thesis by (simp add: unitIndex.simps)
  next
    case False
    then have "1 \<le> bytes div k" by (simp add: k_def)
    with 1 False
    have ih: "k ^ unitIndex (bytes div k) \<le> bytes div k
        \<and> bytes div k < k ^ Suc (unitIndex (bytes div k))"
      by simp
    have u: "unitIndex bytes = Suc (unitIndex (bytes div k))"
      using False by (simp add: unitIndex.simps)
    have kpos: "0 < k" by (simp add: k_def)
    from ih have "k * k ^ unitIndex (bytes div k) \<le> k * (bytes div k)" by simp
    also have "\<dots> \<le> bytes" by simp
    finally have lo: "k ^ unitIndex bytes \<le> bytes" using u by simp
    from ih have "bytes div k < k ^ Suc (unitIndex (bytes div k))" by simp
    then have "bytes < k ^ Suc (unitIndex (bytes div k)) * k"
      using kpos by (simp add: div_less_iff_less_mult)
    then have hi: "bytes < k ^ Suc (unitIndex bytes)" using u by (simp add: mult.commute)
    from lo hi show ?thesis by simp
  qed
qed

text \<open>The index is the floor of the quotient of logarithms that the source computes.\<close>

lemma unitIndex_floor_log:
  assumes "1 \<le> b"
  shows "\<lfloor>ln (real b) / ln (real k)\<rfloor> = int (unitIndex b)"
proof -
  from unitIndex_bounds [OF assms]
  have "k ^ unitIndex b \<le> b" and "b < k ^ (unitIndex b + 1)" by simp_all
  moreover have "2 \<le> k" by (simp add: k_def)
  ultimately have "\<lfloor>log (real k) (real b)\<rfloor> = int (unitIndex b)"
    by (rule floor_log_nat_eq_if)
  then show ?thesis by (simp add: log_def)
qed

lemma unitIndex_less_iff:
  assumes "1 \<le> b"
  shows "unitIndex b < n \<longleftrightarrow> b < k ^ n"
proof
  assume "unitIndex b < n"
  then have "Suc (unitIndex b) \<le> n" by simp
  then have "k ^ Suc (unitIndex b) \<le> k ^ n"
    by (intro power_increasing) (simp_all add: k_def)
  with unitIndex_bounds [OF assms] show "b < k ^ n" by simp
next
  assume "b < k ^ n"
  with unitIndex_bounds [OF assms] have "k ^ unitIndex b < k ^ n" by simp
  then show "unitIndex b < n"
    by (simp add: k_def)
qed

lemma roundedHundredths_range:
  assumes "1 \<le> b"
  shows "100 \<le> roundedHundredths b (unitIndex b) \<and> roundedHundredths b (unitIndex b) \<le> 102400"
proof -
  define K where "K = k ^ unitIndex b"
  have Kpos: "0 < K" by (simp add: K_def k_def)
  from unitIndex_bounds [OF assms] have lo: "K \<le> b" and hi: "b < K * 1024"
    by (simp_all add: K_def k_def mult.commute)
  have "100 * (2 * K) \<le> 2 * (b * 100) + K" using lo by simp
  then have l: "100 \<le> (2 * (b * 100) + K) div (2 * K)"
    using Kpos by (simp add: less_eq_div_iff_mult_less_eq)
  have "2 * (b * 100) + K < 102401 * (2 * K)" using hi by simp
  then have "(2 * (b * 100) + K) div (2 * K) < 102401"
    using Kpos by (simp add: div_less_iff_less_mult)
  with l show ?thesis by (simp add: roundedHundredths_def K_def)
qed

lemma formatFileSize_0: "formatFileSize 0 = ''0 Bytes''"
  by (simp add: formatFileSize_def)

lemma unitIndex_1536: "unitIndex 1536 = 1"
  by (simp add: unitIndex.simps k_def)

lemma formatFileSize_1536: "formatFileSize 1536 = ''1.5 KB''"
  by (simp add: formatFileSize_def unitIndex_1536 roundedHundredths_def k_def
      numberToString_def showNat.simps digit_def unitName_def sizes_def)

text \<open>
  Claim C9, as the code has it. \<open>formatFileSize(0)\<close> returns \<open>'0 Bytes'\<close>, and for every
  byte count \<open>b\<close> with \<open>1 \<le> b < 1024\<^sup>4\<close> the unit index is a valid index into the
  four-element unit list, so the function returns a rounded number (at least one, in
  hundredths) followed by a space and one of the four unit names.
\<close>

theorem formatFileSize_units:
  "formatFileSize 0 = ''0 Bytes'' \<and>
   (1 \<le> b \<and> b < k ^ 4 \<longrightarrow>
      unitIndex b < length sizes \<and>
      sizes ! unitIndex b \<in> set sizes \<and>
      100 \<le> roundedHundredths b (unitIndex b) \<and>
      formatFileSize b =
        numberToString (roundedHundredths b (unitIndex b)) @ '' '' @ sizes ! unitIndex b)"
proof (intro conjI impI)
  show "formatFileSize 0 = ''0 Bytes''" by (simp add: formatFileSize_def)
next
  assume b: "1 \<le> b \<and> b < k ^ 4"
  then have i: "unitIndex b < 4" by (simp add: unitIndex_less_iff)
  then show valid: "unitIndex b < length sizes" by (simp add: sizes_def)
  then show "sizes ! unitIndex b \<in> set sizes" by (rule nth_mem)
  from b show "100 \<le> roundedHundredths b (unitIndex b)"
    by (simp add: roundedHundredths_range)
  from b valid show "formatFileSize b =
      numberToString (roundedHundredths b (unitIndex b)) @ '' '' @ sizes ! unitIndex b"
    by (simp add: formatFileSize_def unitName_def Let_def)
qed

theorem formatFileSize_units_witness:
  "formatFileSize 0 = ''0 Bytes'' \<and> (1::nat) \<le> 1536 \<and> (1536::nat) < k ^ 4 \<and>
   unitIndex 1536 < length sizes \<and> sizes ! unitIndex 1536 = ''KB'' \<and>
   roundedHundredths 1536 (unitIndex 1536) = 150 \<and>
   formatFileSize 1536 = ''1.5 KB''"
proof -
  have h: "(1::nat) \<le> 1536 \<and> (1536::nat) < k ^ 4" by (simp add: k_def)
  with formatFileSize_units [of 1536]
  have "formatFileSize 0 = ''0 Bytes'' \<and> unitIndex 1536 < length sizes" by blast
  with h show ?thesis
    by (simp add: unitIndex_1536 formatFileSize_1536 sizes_def roundedHundredths_def k_def)
qed

lemma unitIndex_2TiB: "unitIndex 2199023255552 = 4"
  by (simp add: unitIndex.simps k_def)

lemma roundedHundredths_2TiB: "roundedHundredths 2199023255552 4 = 200"
  by (simp add: roundedHundredths_def k_def)

lemma numberToString_200: "numberToString 200 = ''2''"
  by (simp add: numberToString_def showNat.simps digit_def)

text \<open>
  Claim C9 as stated, for every \<open>b \<ge> 1\<close>, fails from \<open>1024\<^sup>4\<close> bytes on: two tebibytes
  have unit index 4, \<open>sizes[4]\<close> is \<open>undefined\<close>, and the function returns
  \<open>'2 undefined'\<close>.
\<close>

theorem formatFileSize_counterexample:
  "(1::nat) \<le> 2199023255552 \<and> \<not> unitIndex 2199023255552 < length sizes \<and>
   formatFileSize 2199023255552 = ''2 undefined''"
proof -
  have "formatFileSize 2199023255552 = numberToString 200 @ '' '' @ unitName 4"
    unfolding formatFileSize_def Let_def unitIndex_2TiB roundedHundredths_2TiB by simp
  then show ?thesis
    by (simp add: unitIndex_2TiB numberToString_200 unitName_def sizes_def)
qed

subsection \<open>The download link\<close>

lemma renderExportsPage_list:
  assumes "i < length exports"
  shows "renderExportsPage API parseDate now later False exports =
           ExportList (map (renderItem API parseDate now later) exports)"
  using assms by (auto simp: renderExportsPage_def)

lemma renderItem_download:
  "view_download (renderItem API parseDate now later item) =
     (if isExpired parseDate now (expires_at item) then ExpiredBox
      else DownloadLink (API @ ''/export/download/'' @ download_token item))"
  by (simp add: renderItem_def Let_def)

lemma renderItem_clock_expired:
  "isExpired parseDate now (expires_at item) \<Longrightarrow>
     view_clock (renderItem API parseDate now later item) = ExpiredText"
  by (simp add: renderItem_def Let_def)

text \<open>
  Claim C10. For every export item on the loaded Exports page, the Download link, pointing at
  the URL of the item's \<open>download_token\<close>, is rendered if and only if the item's
  \<open>expires_at\<close> time is not earlier than the current time; when \<open>expires_at\<close> is
  strictly earlier than now, the \<open>Expired\<close> marker is rendered instead (in the clock line
  and in place of the link) and no download link for that item appears. An \<open>expires_at\<close>
  that is no date is never earlier than now, so its link is rendered.
\<close>

theorem download_link_iff_not_expired:
  assumes "i < length exports"
  shows "\<exists>views.
      renderExportsPage API parseDate now later False exports = ExportList views \<and>
      length views = length exports \<and>
      (case parseDate (expires_at (exports ! i)) of
         Some t \<Rightarrow>
           ((view_download (views ! i) =
               DownloadLink (API @ ''/export/download/'' @ download_token (exports ! i)))
             = (\<not> t < now)) \<and>
           (t < now \<longrightarrow>
              view_download (views ! i) = ExpiredBox \<and>
              view_clock (views ! i) = ExpiredText \<and>
              (\<forall>href. view_download (views ! i) \<noteq> DownloadLink href))
       | None \<Rightarrow>
           view_download (views ! i) =
             DownloadLink (API @ ''/export/download/'' @ download_token (exports ! i)))"
proof (intro exI conjI)
  show "renderExportsPage API parseDate now later False exports =
          ExportList (map (renderItem API parseDate now later) exports)"
    using assms by (rule renderExportsPage_list)
  show "length (map (renderItem API parseDate now later) exports) = length exports"
    by simp
  show "case parseDate (expires_at (exports ! i)) of
         Some t \<Rightarrow>
           ((view_download (map (renderItem API parseDate now later) exports ! i) =
               DownloadLink (API @ ''/export/download/'' @ download_token (exports ! i)))
             = (\<not> t < now)) \<and>
           (t < now \<longrightarrow>
              view_download (map (renderItem API parseDate now later) exports ! i) = ExpiredBox \<and>
              view_clock (map (renderItem API parseDate now later) exports ! i) = ExpiredText \<and>
              (\<forall>href. view_download (map (renderItem API parseDate now later) exports ! i)
                 \<noteq> DownloadLink href))
       | None \<Rightarrow>
           view_download (map (renderItem API parseDate now later) exports ! i) =
             DownloadLink (API @ ''/export/download/'' @ download_token (exports ! i))"
    using assms
    by (simp add: renderItem_def Let_def isExpired_def split: option.split)
qed

theorem download_link_iff_not_expired_witness:
  "(1::nat) < length sampleExports \<and>
   renderExportsPage ''/api'' sampleParse 1704153600000 1704153600000 False sampleExports =
     ExportList
       [\<lparr> view_name = ''old.zip'', view_size = ''1.5 KB'', view_clock = ExpiredText,
          view_download = ExpiredBox \<rparr>,
        \<lparr> view_name = ''new.zip'', view_size = ''0 Bytes'', view_clock = ValidFor (Some 24),
          view_download = DownloadLink ''/api/export/download/tok2'' \<rparr>]"
proof -
  have h: "(1::nat) < length sampleExports" by (simp add: sampleExports_def)
  from download_link_iff_not_expired [OF h, of "''/api''" sampleParse 1704153600000 1704153600000]
  obtain views where
    "renderExportsPage ''/api'' sampleParse 1704153600000 1704153600000 False sampleExports
       = ExportList views"
    by blast
  then show ?thesis
    using h
    by (simp add: renderExportsPage_def sampleExports_def renderItem_def Let_def isExpired_def
        sampleParse_def hoursLeft_def formatFileSize_1536 formatFileSize_0)
qed

section \<open>Properties of the Connections page\<close>

lemma sync_state_UNIV: "(UNIV :: sync_state set) = {Pending, Syncing, Success, Error}"
proof -
  have "s \<in> {Pending, Syncing, Success, Error}" for s :: sync_state
    by (cases s) simp_all
  then show ?thesis by blast
qed

lemma status_name_inj: "inj status_name"
proof (rule injI)
  fix a b :: sync_state
  assume "status_name a = status_name b"
  then show "a = b" by (cases a; cases b) simp_all
qed

text \<open>
  Claim C8. The last-sync status of a Connection ranges over exactly the four values
  pending, syncing, success and error, each with a name of its own. The status badge is
  defined for every input: for \<open>'success'\<close> it is the Synced badge, for \<open>'syncing'\<close> the
  Syncing badge, for \<open>'error'\<close> the Error badge, and for every other input, the absent status
  and \<open>'pending'\<close> among them, the Pending badge.
\<close>

theorem getSyncStatusBadge_total:
  "(UNIV :: sync_state set) = {Pending, Syncing, Success, Error} \<and>
   status_name ` UNIV = {''pending'', ''syncing'', ''success'', ''error''} \<and>
   inj status_name \<and>
   badge_label (getSyncStatusBadge (Some ''success'')) = ''Synced'' \<and>
   badge_icon (getSyncStatusBadge (Some ''success'')) = CheckCircle \<and>
   badge_label (getSyncStatusBadge (Some ''syncing'')) = ''Syncing'' \<and>
   badge_icon (getSyncStatusBadge (Some ''syncing'')) = RefreshCw \<and>
   badge_label (getSyncStatusBadge (Some ''error'')) = ''Error'' \<and>
   badge_icon (getSyncStatusBadge (Some ''error'')) = XCircle \<and>
   (status \<noteq> Some ''success'' \<and> status \<noteq> Some ''syncing'' \<and> status \<noteq> Some ''error'' \<longrightarrow>
      getSyncStatusBadge status = getSyncStatusBadge None \<and>
      badge_label (getSyncStatusBadge status) = ''Pending'' \<and>
      badge_icon (getSyncStatusBadge status) = Clock)"
proof (intro conjI impI)
  show "(UNIV :: sync_state set) = {Pending, Syncing, Success, Error}"
    by (rule sync_state_UNIV)
  show "status_name ` UNIV = {''pending'', ''syncing'', ''success'', ''error''}"
    unfolding sync_state_UNIV by simp
  show "inj status_name" by (rule status_name_inj)
qed (simp_all add: getSyncStatusBadge_def)

theorem getSyncStatusBadge_total_witness:
  "Some ''pending'' \<noteq> Some ''success'' \<and> Some ''pending'' \<noteq> Some ''syncing'' \<and>
   Some ''pending'' \<noteq> Some ''error'' \<and>
   getSyncStatusBadge (Some ''pending'') = getSyncStatusBadge None \<and>
   badge_label (getSyncStatusBadge (Some (status_name Pending))) = ''Pending'' \<and>
   badge_label (getSyncStatusBadge (Some (status_name Syncing))) = ''Syncing'' \<and>
   badge_label (getSyncStatusBadge (Some (status_name Success))) = ''Synced'' \<and>
   badge_label (getSyncStatusBadge (Some (status_name Error))) = ''Error''"
  using getSyncStatusBadge_total [of "Some ''pending''"]
  by (simp add: getSyncStatusBadge_def)

section \<open>Properties of the Record Store\<close>

lemma rec_key_body_update [simp]: "rec_key (x\<lparr>rec_body := b\<rparr>) = rec_key x"
  by (simp add: rec_key_def)

lemma keys_upsert:
  "map rec_key (upsert r store) =
     (if rec_key r \<in> rec_key ` set store then map rec_key store
      else map rec_key store @ [rec_key r])"
  by (induction store) auto

lemma distinct_keys_upsert:
  "distinct (map rec_key store) \<Longrightarrow> distinct (map rec_key (upsert r store))"
  by (simp add: keys_upsert)

lemma distinct_keys_persist_batch:
  "distinct (map rec_key store) \<Longrightarrow>
     distinct (map rec_key (persist_batch mapToUnified batch store))"
proof (induction batch arbitrary: store)
  case Nil
  then show ?case by simp
next
  case (Cons raw rest)
  then show ?case
    by (cases "mapToUnified raw") (simp_all add: distinct_keys_upsert)
qed

lemma reachable_distinct_keys: "reachable store \<Longrightarrow> distinct (map rec_key store)"
proof (induction rule: reachable.induct)
  case reachable_empty
  show ?case by simp
next
  case (reachable_upsert store r)
  then show ?case by (simp add: distinct_keys_upsert)
next
  case (reachable_sync store mapToUnified batch)
  then show ?case by (simp add: distinct_keys_persist_batch)
qed

lemma distinct_keys_at_most_one:
  "distinct (map rec_key store) \<Longrightarrow> length (filter (\<lambda>r. rec_key r = key) store) \<le> 1"
proof (induction store)
  case Nil
  show ?case by simp
next
  case (Cons x xs)
  show ?case
  proof (cases "rec_key x = key")
    case True
    with Cons.prems have "key \<notin> rec_key ` set xs" by simp
    then have "\<forall>r \<in> set xs. rec_key r \<noteq> key" by blast
    then have "filter (\<lambda>r. rec_key r = key) xs = []" by (simp add: filter_empty_conv)
    with True show ?thesis by simp
  next
    case False
    with Cons show ?thesis by simp
  qed
qed

lemma upsert_the_record:
  "distinct (map rec_key store) \<Longrightarrow>
     \<exists>x. filter (\<lambda>x. rec_key x = rec_key r) (upsert r store) = [x] \<and> rec_body x = rec_body r"
proof (induction store)
  case Nil
  show ?case by simp
next
  case (Cons y ys)
  show ?case
  proof (cases "rec_key y = rec_key r")
    case True
    with Cons.prems have "rec_key r \<notin> rec_key ` set ys" by simp
    then have "\<forall>x \<in> set ys. rec_key x \<noteq> rec_key r" by (metis imageI)
    then have "filter (\<lambda>x. rec_key x = rec_key r) ys = []" by (simp add: filter_empty_conv)
    with True show ?thesis by simp
  next
    case False
    with Cons show ?thesis by simp
  qed
qed

lemma persist_batch_append:
  "persist_batch mapToUnified (xs @ ys) store =
     persist_batch mapToUnified ys (persist_batch mapToUnified xs store)"
proof (induction xs arbitrary: store)
  case Nil
  show ?case by simp
next
  case (Cons raw rest)
  then show ?case by (cases "mapToUnified raw") simp_all
qed

lemma reachable_persist_item:
  "reachable store \<Longrightarrow> reachable (persist_batch mapToUnified [raw] store)"
  by (rule reachable_sync)

text \<open>
  Claim C1. In every Record Store that a sequence of upserts and sync batches can produce,
  at most one live Record has a given key (user, provider, dataset, external id); and when a
  batch ingests two raw items that map to Records of the same key, whatever is ingested
  between them, exactly one Record of that key is in the store afterwards, and its body is
  that of the later item.
\<close>

theorem one_record_per_key:
  assumes "reachable store"
  shows "(\<forall>key. length (filter (\<lambda>r. rec_key r = key) store) \<le> 1) \<and>
         (\<forall>ra rb. mapToUnified a = Some ra \<and> mapToUnified b = Some rb \<and> rec_key ra = rec_key rb \<longrightarrow>
            (\<exists>r. filter (\<lambda>x. rec_key x = rec_key rb)
                    (persist_batch mapToUnified (a # between @ [b]) store) = [r] \<and>
                 rec_body r = rec_body rb))"
proof (intro conjI allI impI)
  fix key
  from assms have "distinct (map rec_key store)" by (rule reachable_distinct_keys)
  then show "length (filter (\<lambda>r. rec_key r = key) store) \<le> 1"
    by (rule distinct_keys_at_most_one)
next
  fix ra rb
  assume h: "mapToUnified a = Some ra \<and> mapToUnified b = Some rb \<and> rec_key ra = rec_key rb"
  define before where "before = persist_batch mapToUnified (a # between) store"
  from assms have "distinct (map rec_key store)" by (rule reachable_distinct_keys)
  then have d: "distinct (map rec_key before)"
    unfolding before_def by (rule distinct_keys_persist_batch)
  have "persist_batch mapToUnified (a # between @ [b]) store =
          persist_batch mapToUnified [b] before"
    unfolding before_def using persist_batch_append [of mapToUnified "a # between" "[b]" store]
    by simp
  also have "\<dots> = upsert rb before" using h by simp
  finally have "persist_batch mapToUnified (a # between @ [b]) store = upsert rb before" .
  with upsert_the_record [OF d, of rb]
  show "\<exists>r. filter (\<lambda>x. rec_key x = rec_key rb)
               (persist_batch mapToUnified (a # between @ [b]) store) = [r] \<and>
             rec_body r = rec_body rb"
    by simp
qed

theorem one_record_per_key_witness:
  "reachable [] \<and>
   sampleMap [(''id'', ''t1''), (''title'', ''So What'')] =
     Some \<lparr> rec_user = 7, rec_provider = ''spotify'', rec_dataset = ''tracks'',
            rec_external_id = ''t1'', rec_body = ''So What'', rec_ingested_at = 0 \<rparr> \<and>
   sampleMap [(''id'', ''t1''), (''title'', ''So What (remastered)'')] =
     Some \<lparr> rec_user = 7, rec_provider = ''spotify'', rec_dataset = ''tracks'',
            rec_external_id = ''t1'', rec_body = ''So What (remastered)'',
            rec_ingested_at = 0 \<rparr> \<and>
   persist_batch sampleMap
     [[(''id'', ''t1''), (''title'', ''So What'')],
      [(''title'', ''no id'')],
      [(''id'', ''t2''), (''title'', ''Blue in Green'')],
      [(''id'', ''t1''), (''title'', ''So What (remastered)'')]] [] =
     [\<lparr> rec_user = 7, rec_provider = ''spotify'', rec_dataset = ''tracks'',
        rec_external_id = ''t1'', rec_body = ''So What (remastered)'', rec_ingested_at = 0 \<rparr>,
      \<lparr> rec_user = 7, rec_provider = ''spotify'', rec_dataset = ''tracks'',
        rec_external_id = ''t2'', rec_body = ''Blue in Green'', rec_ingested_at = 0 \<rparr>]"
  using one_record_per_key [OF reachable_empty, of sampleMap
      "[(''id'', ''t1''), (''title'', ''So What'')]"
      "[(''id'', ''t1''), (''title'', ''So What (remastered)'')]"
      "[[(''title'', ''no id'')], [(''id'', ''t2''), (''title'', ''Blue in Green'')]]"]
  by (simp add: reachable_empty sampleMap_def rec_key_def)

end
